theory Spec2Isabelle
  imports Complex_Main "HOL-Library.Log_Nat"
begin

section \<open>Numbers of the host language\<close>

text \<open>
  A JavaScript number is an IEEE 754 double: a finite value \<open>m * 2 ^ e\<close> with
  \<open>m < 2 ^ 53\<close> and \<open>- 1074 \<le> e \<le> 971\<close>, one of the two zeros, one of the two
  infinities, or NaN. A finite double is written \<open>Num q\<close> with its value (\<open>Num 0\<close> is the
  positive zero). The code of the store and the helpers only multiplies and adds numbers;
  both operations return the double nearest to the exact result, ties going to the even
  mantissa.
\<close>

datatype double = Num rat | NegZero | PosInf | NegInf | NaN

definition pow2 :: "int \<Rightarrow> rat" where
  "pow2 e = (if 0 \<le> e then 2 ^ nat e else 1 / 2 ^ nat (- e))"

text \<open>The exponent of the leading bit of a positive rational: the floor of its binary logarithm.\<close>

definition ilog2 :: "rat \<Rightarrow> int" where
  "ilog2 a = (if 1 \<le> a then bitlen \<lfloor>a\<rfloor> - 1 else - bitlen (\<lceil>1 / a\<rceil> - 1))"

text \<open>Rounding to the nearest integer, a tie going to the even one.\<close>

definition rne :: "rat \<Rightarrow> int" where
  "rne x = (let f = \<lfloor>x\<rfloor>; r = x - of_int f
            in if r < 1 / 2 then f else if 1 / 2 < r then f + 1
               else if even f then f else f + 1)"

text \<open>
  The double nearest to a rational: 53 bits are kept from the leading bit on, but no bit
  below \<open>2 ^ - 1074\<close>; a result of \<open>2 ^ 1024\<close> or more is an infinity.
\<close>

definition round64 :: "rat \<Rightarrow> double" where
  "round64 q =
     (if q = 0 then Num 0
      else let a = \<bar>q\<bar>;
               e = max (ilog2 a - 52) (- 1074);
               m = rne (a / pow2 e);
               v = of_int m * pow2 e
           in if 2 ^ 1024 \<le> v then (if q < 0 then NegInf else PosInf)
              else if m = 0 then (if q < 0 then NegZero else Num 0)
              else Num (if q < 0 then - v else v))"

fun negative :: "double \<Rightarrow> bool" where
  "negative (Num q) = (q < 0)"
| "negative NegZero = True"
| "negative PosInf = False"
| "negative NegInf = True"
| "negative NaN = False"

fun is_zero :: "double \<Rightarrow> bool" where
  "is_zero (Num q) = (q = 0)"
| "is_zero NegZero = True"
| "is_zero _ = False"

fun is_inf :: "double \<Rightarrow> bool" where
  "is_inf PosInf = True"
| "is_inf NegInf = True"
| "is_inf _ = False"

fun number_value :: "double \<Rightarrow> rat" where
  "number_value (Num q) = q"
| "number_value _ = 0"

text \<open>The operator \<^verbatim>\<open>*\<close> on two numbers.\<close>

definition dmul :: "double \<Rightarrow> double \<Rightarrow> double" where
  "dmul x y =
     (if x = NaN \<or> y = NaN then NaN
      else if is_inf x \<or> is_inf y
        then (if is_zero x \<or> is_zero y then NaN
              else if negative x \<noteq> negative y then NegInf else PosInf)
      else if is_zero x \<or> is_zero y
        then (if negative x \<noteq> negative y then NegZero else Num 0)
      else round64 (number_value x * number_value y))"

text \<open>The operator \<^verbatim>\<open>+\<close> on two numbers.\<close>

definition dadd :: "double \<Rightarrow> double \<Rightarrow> double" where
  "dadd x y =
     (if x = NaN \<or> y = NaN then NaN
      else if is_inf x then (if is_inf y \<and> x \<noteq> y then NaN else x)
      else if is_inf y then y
      else if number_value x + number_value y = 0
        then (if x = NegZero \<and> y = NegZero then NegZero else Num 0)
      else round64 (number_value x + number_value y))"

text \<open>The number that holds an integer: the integer itself up to \<open>2 ^ 53\<close> in magnitude.\<close>

definition double_of_int :: "int \<Rightarrow> double" where
  "double_of_int n = round64 (of_int n)"

section \<open>Data model\<close>

text \<open>
  Modelled from the spec: the declaration of \<^verbatim>\<open>Product\<close> in the module \<^verbatim>\<open>types\<close>,
  which the store and the helpers import and which is not among the sources. A product has
  the fields id, name, description, price and imageUrl. The type of the id is left open
  (the spec allows strings or integers, and \<^verbatim>\<open>===\<close> on either is equality). The price
  is a JavaScript number.
  The field \<^verbatim>\<open>id\<close> is written \<open>product_id\<close>, since \<open>id\<close> is a constant of HOL.
\<close>

record 'id Product =
  product_id :: 'id
  name :: string
  description :: string
  price :: double
  imageUrl :: string

text \<open>
  Modelled from the spec: the declaration of \<^verbatim>\<open>CartItem\<close> in the same module. An entry
  holds a product and a quantity. The quantity is an integer, so that zero and negative
  values can be written and the invariant of the cart is a real condition; where the code
  computes with it, it is the number \<open>double_of_int\<close> of that integer. The field
  \<^verbatim>\<open>product\<close> is written \<open>item_product\<close>, since \<open>product\<close> is a constant of HOL.
\<close>

record 'id CartItem =
  item_product :: "'id Product"
  quantity :: int

text \<open>The state of the store, \<^verbatim>\<open>CartState\<close> in \<^verbatim>\<open>store/index.ts\<close>.\<close>

record 'id CartState =
  cartItems :: "'id CartItem list"

text \<open>
  Reading a property of \<^verbatim>\<open>undefined\<close> throws a \<^verbatim>\<open>TypeError\<close>; this is the only way
  the four actions could fail on a well-typed argument.
\<close>

datatype error = TypeError

section \<open>Array primitives of the host language\<close>

text \<open>
  \<^verbatim>\<open>Array.prototype.findIndex\<close>: the index of the first element that satisfies the
  predicate, scanning from index 0, and \<open>-1\<close> when there is none.
\<close>

fun findIndex_from :: "('a \<Rightarrow> bool) \<Rightarrow> nat \<Rightarrow> 'a list \<Rightarrow> int" where
  "findIndex_from P k [] = - 1"
| "findIndex_from P k (x # xs) = (if P x then int k else findIndex_from P (Suc k) xs)"

definition findIndex :: "('a \<Rightarrow> bool) \<Rightarrow> 'a list \<Rightarrow> int" where
  "findIndex P xs = findIndex_from P 0 xs"

text \<open>
  \<^verbatim>\<open>Array.prototype.some\<close>: scans from the left and stops at the first element that
  satisfies the predicate.
\<close>

fun some :: "('a \<Rightarrow> bool) \<Rightarrow> 'a list \<Rightarrow> bool" where
  "some P [] = False"
| "some P (x # xs) = (if P x then True else some P xs)"

text \<open>
  \<^verbatim>\<open>Array.prototype.reduce\<close> with an initial value: a fold from the left.
\<close>

fun reduce :: "('b \<Rightarrow> 'a \<Rightarrow> 'b) \<Rightarrow> 'b \<Rightarrow> 'a list \<Rightarrow> 'b" where
  "reduce f acc [] = acc"
| "reduce f acc (x # xs) = reduce f (f acc x) xs"

text \<open>
  The read \<^verbatim>\<open>items[i]\<close>: the element when \<open>i\<close> is an index of the array,
  \<^verbatim>\<open>undefined\<close> (here \<open>None\<close>) otherwise.
\<close>

definition at_index :: "'a list \<Rightarrow> int \<Rightarrow> 'a option" where
  "at_index xs i = (if 0 \<le> i \<and> i < int (length xs) then Some (xs ! nat i) else None)"

text \<open>
  \<^verbatim>\<open>items.splice(start, deleteCount)\<close> with no inserted elements: a negative start
  counts from the end, a start beyond the end removes nothing.
\<close>

definition splice_at :: "'a list \<Rightarrow> int \<Rightarrow> nat \<Rightarrow> 'a list" where
  "splice_at xs start deleteCount =
     (let len = int (length xs);
          s = (if start < 0 then max (len + start) 0 else min start len)
      in take (nat s) xs @ drop (nat s + deleteCount) xs)"

section \<open>The helpers\<close>

definition isInCart :: "'id CartItem list \<Rightarrow> 'id Product \<Rightarrow> bool" where
  "isInCart items item =
     some (\<lambda>cartItem. product_id (item_product cartItem) = product_id item) items"

definition getTotalPrice :: "'id CartItem list \<Rightarrow> double" where
  "getTotalPrice items =
     reduce (\<lambda>total cartItem.
               dadd total (dmul (price (item_product cartItem))
                                (double_of_int (quantity cartItem))))
            (Num 0) items"

text \<open>
  The sum over all entries of price times quantity as the spec words it, in exact
  arithmetic, to be compared with what \<open>getTotalPrice\<close> returns.
\<close>

definition exact_total :: "'id CartItem list \<Rightarrow> rat" where
  "exact_total items =
     (\<Sum>c\<leftarrow>items. number_value (price (item_product c)) * of_int (quantity c))"

text \<open>
  A cart of whole prices: every price is a non-negative integer and every quantity is an
  integer from 1 to \<open>2 ^ 53\<close>.
\<close>

fun whole_price :: "double \<Rightarrow> bool" where
  "whole_price (Num q) = (0 \<le> q \<and> of_int \<lfloor>q\<rfloor> = q)"
| "whole_price _ = False"

definition whole_cart :: "'id CartItem list \<Rightarrow> bool" where
  "whole_cart items \<longleftrightarrow>
     list_all (\<lambda>c. whole_price (price (item_product c)) \<and>
                    1 \<le> quantity c \<and> quantity c \<le> 2 ^ 53) items"

text \<open>
  The third helper, \<^verbatim>\<open>formatCurrency\<close>, hands its argument to the formatter
  \<^verbatim>\<open>Intl.NumberFormat\<close> of the host with the locale \<^verbatim>\<open>en-US\<close> and the currency
  \<^verbatim>\<open>USD\<close>. The formatter and its locale data are not part of the repository, and its
  argument is a double: it has no counterpart here.
\<close>

section \<open>The cart store\<close>

definition findItemIndex :: "'id CartItem list \<Rightarrow> 'id CartItem \<Rightarrow> int" where
  "findItemIndex items item =
     findIndex (\<lambda>cartItem. product_id (item_product cartItem) = product_id (item_product item))
       items"

text \<open>
  Each action reads the array with \<^verbatim>\<open>get().cartItems\<close>, and when it changes anything
  it calls \<^verbatim>\<open>set\<close> with a copy of the array. An action takes the state and returns the
  new state, or the error it throws. The entries of a cart are separate objects (\<open>addItem\<close>
  builds each from an object literal, rehydration parses them from JSON), so the update of
  one entry in place is an update of one position of the list.
\<close>

definition addItem :: "'id CartState \<Rightarrow> 'id CartItem \<Rightarrow> error + 'id CartState" where
  "addItem s item =
     (let items = cartItems s;
          itemIndex = findItemIndex items item
      in if itemIndex = - 1
         then Inr (s\<lparr>cartItems := items @ [item\<lparr>quantity := 1\<rparr>]\<rparr>)
         else Inr s)"

definition removeItem :: "'id CartState \<Rightarrow> 'id CartItem \<Rightarrow> error + 'id CartState" where
  "removeItem s item =
     (let items = cartItems s;
          itemIndex = findItemIndex items item
      in if itemIndex > - 1
         then Inr (s\<lparr>cartItems := splice_at items itemIndex 1\<rparr>)
         else Inr s)"

definition incrementQuantity :: "'id CartState \<Rightarrow> 'id CartItem \<Rightarrow> error + 'id CartState" where
  "incrementQuantity s item =
     (let items = cartItems s;
          itemIndex = findItemIndex items item
      in if itemIndex > - 1
         then (case at_index items itemIndex of
                 None \<Rightarrow> Inl TypeError
               | Some c \<Rightarrow>
                   Inr (s\<lparr>cartItems := items[nat itemIndex := c\<lparr>quantity := quantity c + 1\<rparr>]\<rparr>))
         else Inr s)"

definition decrementQuantity :: "'id CartState \<Rightarrow> 'id CartItem \<Rightarrow> error + 'id CartState" where
  "decrementQuantity s item =
     (let items = cartItems s;
          itemIndex = findItemIndex items item
      in if itemIndex > - 1
         then (case at_index items itemIndex of
                 None \<Rightarrow> Inl TypeError
               | Some c \<Rightarrow>
                   (let items1 = items[nat itemIndex := c\<lparr>quantity := quantity c - 1\<rparr>]
                    in case at_index items1 itemIndex of
                         None \<Rightarrow> Inl TypeError
                       | Some c1 \<Rightarrow>
                           Inr (s\<lparr>cartItems :=
                                   (if quantity c1 = 0 then splice_at items1 itemIndex 1
                                    else items1)\<rparr>)))
         else Inr s)"

text \<open>Running one action after another stops at the first error.\<close>

definition andThen ::
  "error + 'id CartState \<Rightarrow> ('id CartState \<Rightarrow> error + 'id CartState) \<Rightarrow> error + 'id CartState"
where
  "andThen r f = (case r of Inl e \<Rightarrow> Inl e | Inr s \<Rightarrow> f s)"

section \<open>The invariant of the cart\<close>

text \<open>
  At most one entry for each product id, and every quantity at least 1.
\<close>

definition cart_invariant :: "'id CartItem list \<Rightarrow> bool" where
  "cart_invariant items \<longleftrightarrow>
     distinct (map (\<lambda>c. product_id (item_product c)) items) \<and>
     list_all (\<lambda>c. 1 \<le> quantity c) items"

text \<open>Whether some entry of the cart has the product id of the given product.\<close>

definition has_entry :: "'id CartItem list \<Rightarrow> 'id \<Rightarrow> bool" where
  "has_entry items i \<longleftrightarrow> list_ex (\<lambda>c. product_id (item_product c) = i) items"

section \<open>Example products and carts\<close>

text \<open>
  Concrete values on which the theorems below are instantiated. The products
  \<open>apple\<close> and \<open>green_apple\<close> share the id 1 and differ in every other field.
\<close>

definition apple :: "nat Product" where
  "apple = \<lparr>product_id = 1, name = ''Apple'', description = ''A red apple'', price = Num 10,
             imageUrl = ''apple.png''\<rparr>"

definition pear :: "nat Product" where
  "pear = \<lparr>product_id = 2, name = ''Pear'', description = ''A green pear'', price = Num 5,
            imageUrl = ''pear.png''\<rparr>"

definition green_apple :: "nat Product" where
  "green_apple = \<lparr>product_id = 1, name = ''Green apple'', description = ''A sour apple'',
                   price = Num 3, imageUrl = ''green.png''\<rparr>"

definition example_cart :: "nat CartState" where
  "example_cart =
     \<lparr>cartItems = [\<lparr>item_product = pear, quantity = 1\<rparr>, \<lparr>item_product = apple, quantity = 3\<rparr>]\<rparr>"

definition empty_cart :: "nat CartState" where
  "empty_cart = \<lparr>cartItems = []\<rparr>"

definition plum :: "nat Product" where
  "plum = \<lparr>product_id = 3, name = ''Plum'', description = ''A ripe plum'', price = Num 2,
            imageUrl = ''plum.png''\<rparr>"

text \<open>A cart with two entries for the product id 1.\<close>

definition duplicate_cart :: "nat CartState" where
  "duplicate_cart =
     \<lparr>cartItems = [\<lparr>item_product = pear, quantity = 1\<rparr>, \<lparr>item_product = apple, quantity = 1\<rparr>,
                   \<lparr>item_product = green_apple, quantity = 3\<rparr>]\<rparr>"

text \<open>
  Two carts on which the total is rounded: a price of \<open>2 ^ 53\<close> next to a price of 1,
  and three pieces at the price \<^verbatim>\<open>0.1\<close>, which as a double is
  \<open>3602879701896397 / 2 ^ 55\<close>.
\<close>

definition bond :: "nat Product" where
  "bond = \<lparr>product_id = 4, name = ''Bond'', description = ''A costly bond'',
            price = Num 9007199254740992, imageUrl = ''bond.png''\<rparr>"

definition penny :: "nat Product" where
  "penny = \<lparr>product_id = 5, name = ''Penny'', description = ''A penny sweet'',
             price = Num 1, imageUrl = ''penny.png''\<rparr>"

definition sweet :: "nat Product" where
  "sweet = \<lparr>product_id = 6, name = ''Sweet'', description = ''A boiled sweet'',
             price = Num (3602879701896397 / 36028797018963968), imageUrl = ''sweet.png''\<rparr>"

definition bond_cart :: "nat CartItem list" where
  "bond_cart = [\<lparr>item_product = bond, quantity = 1\<rparr>, \<lparr>item_product = penny, quantity = 1\<rparr>]"

definition sweet_cart :: "nat CartItem list" where
  "sweet_cart = [\<lparr>item_product = sweet, quantity = 3\<rparr>]"

lemmas example_defs = apple_def pear_def green_apple_def plum_def example_cart_def empty_cart_def

section \<open>Facts about the array primitives\<close>

lemma findIndex_from_none:
  "list_all (\<lambda>x. \<not> P x) xs \<Longrightarrow> findIndex_from P k xs = - 1"
  by (induction xs arbitrary: k) auto

lemma findIndex_from_first:
  "list_all (\<lambda>x. \<not> P x) pre \<Longrightarrow> P e \<Longrightarrow>
   findIndex_from P k (pre @ e # post) = int (k + length pre)"
  by (induction pre arbitrary: k) auto

lemma findIndex_none: "\<not> list_ex P xs \<Longrightarrow> findIndex P xs = - 1"
  by (simp add: findIndex_def findIndex_from_none list_all_iff list_ex_iff)

lemma findIndex_first:
  "list_all (\<lambda>x. \<not> P x) pre \<Longrightarrow> P e \<Longrightarrow> findIndex P (pre @ e # post) = int (length pre)"
  by (simp add: findIndex_def findIndex_from_first)

lemma first_match_split:
  assumes "list_ex P xs"
  obtains pre e post where "xs = pre @ e # post" "P e" "list_all (\<lambda>x. \<not> P x) pre"
proof -
  from assms have "\<exists>x\<in>set xs. P x" by (simp add: list_ex_iff)
  then obtain pre e post where "xs = pre @ e # post" "P e" "\<forall>x\<in>set pre. \<not> P x"
    by (auto dest!: split_list_first_prop)
  then show thesis using that by (simp add: list_all_iff)
qed

lemma at_index_middle: "at_index (pre @ e # post) (int (length pre)) = Some e"
  by (simp add: at_index_def)

lemma splice_middle: "splice_at (pre @ e # post) (int (length pre)) (Suc 0) = pre @ post"
  by (simp add: splice_at_def Let_def)

lemma some_iff: "some P xs \<longleftrightarrow> list_ex P xs"
  by (induction xs) auto

lemma reduce_foldl: "reduce f acc xs = foldl f acc xs"
  by (induction xs arbitrary: acc) simp_all

section \<open>The actions on a cart split at the first matching entry\<close>

lemma findItemIndex_absent:
  "\<not> has_entry items (product_id (item_product item)) \<Longrightarrow> findItemIndex items item = - 1"
  by (simp add: findItemIndex_def has_entry_def findIndex_none)

lemma findItemIndex_present:
  "list_all (\<lambda>c. product_id (item_product c) \<noteq> product_id (item_product item)) pre \<Longrightarrow>
   product_id (item_product e) = product_id (item_product item) \<Longrightarrow>
   findItemIndex (pre @ e # post) item = int (length pre)"
  by (simp add: findItemIndex_def findIndex_first)

lemma has_entry_split:
  assumes "has_entry items i"
  obtains pre e post where "items = pre @ e # post" "product_id (item_product e) = i"
    "list_all (\<lambda>c. product_id (item_product c) \<noteq> i) pre"
  using assms unfolding has_entry_def by (rule first_match_split)

lemma addItem_absent:
  "\<not> has_entry (cartItems s) (product_id (item_product item)) \<Longrightarrow>
   addItem s item = Inr (s\<lparr>cartItems := cartItems s @ [item\<lparr>quantity := 1\<rparr>]\<rparr>)"
  by (simp add: addItem_def findItemIndex_absent)

lemma addItem_present:
  assumes "has_entry (cartItems s) (product_id (item_product item))"
  shows "addItem s item = Inr s"
proof -
  from assms obtain pre e post where "cartItems s = pre @ e # post"
    "product_id (item_product e) = product_id (item_product item)"
    "list_all (\<lambda>c. product_id (item_product c) \<noteq> product_id (item_product item)) pre"
    by (rule has_entry_split)
  then show ?thesis by (simp add: addItem_def findItemIndex_present)
qed

lemma removeItem_absent:
  "\<not> has_entry (cartItems s) (product_id (item_product item)) \<Longrightarrow> removeItem s item = Inr s"
  by (simp add: removeItem_def findItemIndex_absent)

lemma incrementQuantity_absent:
  "\<not> has_entry (cartItems s) (product_id (item_product item)) \<Longrightarrow>
   incrementQuantity s item = Inr s"
  by (simp add: incrementQuantity_def findItemIndex_absent)

lemma decrementQuantity_absent:
  "\<not> has_entry (cartItems s) (product_id (item_product item)) \<Longrightarrow>
   decrementQuantity s item = Inr s"
  by (simp add: decrementQuantity_def findItemIndex_absent)

lemma removeItem_split:
  "cartItems s = pre @ e # post \<Longrightarrow>
   list_all (\<lambda>c. product_id (item_product c) \<noteq> product_id (item_product item)) pre \<Longrightarrow>
   product_id (item_product e) = product_id (item_product item) \<Longrightarrow>
   removeItem s item = Inr (s\<lparr>cartItems := pre @ post\<rparr>)"
  by (simp add: removeItem_def findItemIndex_present splice_middle)

lemma incrementQuantity_split:
  "cartItems s = pre @ e # post \<Longrightarrow>
   list_all (\<lambda>c. product_id (item_product c) \<noteq> product_id (item_product item)) pre \<Longrightarrow>
   product_id (item_product e) = product_id (item_product item) \<Longrightarrow>
   incrementQuantity s item = Inr (s\<lparr>cartItems := pre @ e\<lparr>quantity := quantity e + 1\<rparr> # post\<rparr>)"
  by (simp add: incrementQuantity_def findItemIndex_present at_index_middle)

lemma decrementQuantity_split:
  "cartItems s = pre @ e # post \<Longrightarrow>
   list_all (\<lambda>c. product_id (item_product c) \<noteq> product_id (item_product item)) pre \<Longrightarrow>
   product_id (item_product e) = product_id (item_product item) \<Longrightarrow>
   decrementQuantity s item =
     Inr (s\<lparr>cartItems := (if quantity e = 1 then pre @ post
                          else pre @ e\<lparr>quantity := quantity e - 1\<rparr> # post)\<rparr>)"
  by (simp add: decrementQuantity_def findItemIndex_present at_index_middle splice_middle)

section \<open>The invariant under the four actions\<close>

lemma cart_invariant_remove:
  "cart_invariant (pre @ e # post) \<Longrightarrow> cart_invariant (pre @ post)"
  by (auto simp: cart_invariant_def)

lemma cart_invariant_update:
  "cart_invariant (pre @ e # post) \<Longrightarrow> 1 \<le> q \<Longrightarrow>
   cart_invariant (pre @ e\<lparr>quantity := q\<rparr> # post)"
  by (auto simp: cart_invariant_def)

lemma cart_invariant_append:
  "cart_invariant items \<Longrightarrow> \<not> has_entry items (product_id (item_product c)) \<Longrightarrow>
   1 \<le> quantity c \<Longrightarrow> cart_invariant (items @ [c])"
  by (auto simp: cart_invariant_def has_entry_def list_ex_iff)

lemma cart_invariant_quantity:
  "cart_invariant (pre @ e # post) \<Longrightarrow> 1 \<le> quantity e"
  by (simp add: cart_invariant_def)

text \<open>
  Claim C1. On a cart that satisfies the invariant (at most one entry for each product id,
  every quantity at least 1), each of \<open>addItem\<close>, \<open>removeItem\<close>,
  \<open>incrementQuantity\<close> and \<open>decrementQuantity\<close> returns a state, not an error, and
  the cart of that state satisfies the invariant again.
\<close>

theorem actions_preserve_invariant:
  assumes inv: "cart_invariant (cartItems s)"
  shows "(\<exists>s'. addItem s item = Inr s' \<and> cart_invariant (cartItems s')) \<and>
         (\<exists>s'. removeItem s item = Inr s' \<and> cart_invariant (cartItems s')) \<and>
         (\<exists>s'. incrementQuantity s item = Inr s' \<and> cart_invariant (cartItems s')) \<and>
         (\<exists>s'. decrementQuantity s item = Inr s' \<and> cart_invariant (cartItems s'))"
proof (cases "has_entry (cartItems s) (product_id (item_product item))")
  case False
  have "cart_invariant (cartItems s @ [item\<lparr>quantity := 1\<rparr>])"
    using inv False by (intro cart_invariant_append) simp_all
  with False inv show ?thesis
    by (simp add: addItem_absent removeItem_absent incrementQuantity_absent
        decrementQuantity_absent)
next
  case True
  then obtain pre e post where split: "cartItems s = pre @ e # post"
    "product_id (item_product e) = product_id (item_product item)"
    "list_all (\<lambda>c. product_id (item_product c) \<noteq> product_id (item_product item)) pre"
    by (rule has_entry_split)
  from inv split(1) have inv': "cart_invariant (pre @ e # post)" by simp
  have q: "1 \<le> quantity e" using inv' by (rule cart_invariant_quantity)
  have rm: "cart_invariant (pre @ post)" using inv' by (rule cart_invariant_remove)
  have up: "cart_invariant (pre @ e\<lparr>quantity := quantity e + 1\<rparr> # post)"
    using inv' q by (intro cart_invariant_update) simp_all
  have down: "quantity e \<noteq> 1 \<Longrightarrow> cart_invariant (pre @ e\<lparr>quantity := quantity e - 1\<rparr> # post)"
    using inv' q by (intro cart_invariant_update) simp_all
  have a: "addItem s item = Inr s" using True by (rule addItem_present)
  have r: "removeItem s item = Inr (s\<lparr>cartItems := pre @ post\<rparr>)"
    by (rule removeItem_split[OF split(1) split(3) split(2)])
  have i: "incrementQuantity s item =
      Inr (s\<lparr>cartItems := pre @ e\<lparr>quantity := quantity e + 1\<rparr> # post\<rparr>)"
    by (rule incrementQuantity_split[OF split(1) split(3) split(2)])
  have d: "decrementQuantity s item =
      Inr (s\<lparr>cartItems := (if quantity e = 1 then pre @ post
                           else pre @ e\<lparr>quantity := quantity e - 1\<rparr> # post)\<rparr>)"
    by (rule decrementQuantity_split[OF split(1) split(3) split(2)])
  show ?thesis
    using inv rm up down by (simp add: a r i d)
qed

theorem actions_preserve_invariant_witness:
  "cart_invariant (cartItems example_cart) \<and>
   (\<exists>s'. addItem example_cart \<lparr>item_product = apple, quantity = 7\<rparr> = Inr s' \<and>
         cart_invariant (cartItems s')) \<and>
   (\<exists>s'. removeItem example_cart \<lparr>item_product = apple, quantity = 7\<rparr> = Inr s' \<and>
         cart_invariant (cartItems s')) \<and>
   (\<exists>s'. incrementQuantity example_cart \<lparr>item_product = apple, quantity = 7\<rparr> = Inr s' \<and>
         cart_invariant (cartItems s')) \<and>
   (\<exists>s'. decrementQuantity example_cart \<lparr>item_product = apple, quantity = 7\<rparr> = Inr s' \<and>
         cart_invariant (cartItems s'))"
proof -
  have h: "cart_invariant (cartItems example_cart)"
    by (simp add: example_defs cart_invariant_def)
  show ?thesis
    using h actions_preserve_invariant[OF h, of "\<lparr>item_product = apple, quantity = 7\<rparr>"]
    by simp
qed

section \<open>Adding an item\<close>

lemma has_entry_iff:
  "has_entry items i \<longleftrightarrow> (\<exists>c\<in>set items. product_id (item_product c) = i)"
  by (simp add: has_entry_def list_ex_iff)

lemma has_entry_append:
  "has_entry (xs @ ys) i \<longleftrightarrow> has_entry xs i \<or> has_entry ys i"
  by (auto simp: has_entry_iff)

lemma filter_absent:
  "\<not> has_entry items i \<Longrightarrow> filter (\<lambda>c. product_id (item_product c) = i) items = []"
  by (auto simp: has_entry_iff filter_empty_conv)

lemma not_has_entry_list_all:
  "\<not> has_entry items i \<Longrightarrow> j = i \<Longrightarrow>
   list_all (\<lambda>c. product_id (item_product c) \<noteq> j) items"
  by (auto simp: has_entry_iff list_all_iff)

lemma incrementQuantity_last:
  assumes "cartItems s = items @ [e]"
    and "\<not> has_entry items (product_id (item_product e))"
    and "product_id (item_product item) = product_id (item_product e)"
  shows "incrementQuantity s item =
           Inr (s\<lparr>cartItems := items @ [e\<lparr>quantity := quantity e + 1\<rparr>]\<rparr>)"
  using incrementQuantity_split[OF assms(1) not_has_entry_list_all[OF assms(2,3)]] assms(3)
  by simp

lemma decrementQuantity_last:
  assumes "cartItems s = items @ [e]"
    and "\<not> has_entry items (product_id (item_product e))"
    and "product_id (item_product item) = product_id (item_product e)"
  shows "decrementQuantity s item =
           Inr (s\<lparr>cartItems := (if quantity e = 1 then items
                                else items @ [e\<lparr>quantity := quantity e - 1\<rparr>])\<rparr>)"
  using decrementQuantity_split[OF assms(1) not_has_entry_list_all[OF assms(2,3)]] assms(3)
  by simp

text \<open>
  Claim C2. When no entry has the product id of the input, \<open>addItem\<close> appends one entry
  at the end of the cart, made of the input's product and the quantity 1, whatever quantity
  the input carries. When an entry with that id exists, \<open>addItem\<close> returns the state
  unchanged. A second \<open>addItem\<close> for the same id changes nothing after the first, so that
  after two calls on a cart without the id the entries with that id are exactly the one
  entry of quantity 1.
\<close>

theorem addItem_appends_once:
  "(\<not> has_entry (cartItems s) (product_id (item_product item)) \<longrightarrow>
      addItem s item =
        Inr (s\<lparr>cartItems := cartItems s @ [\<lparr>item_product = item_product item, quantity = 1\<rparr>]\<rparr>))
   \<and> (has_entry (cartItems s) (product_id (item_product item)) \<longrightarrow> addItem s item = Inr s)
   \<and> (product_id (item_product item') = product_id (item_product item) \<longrightarrow>
        andThen (addItem s item) (\<lambda>s1. addItem s1 item') = addItem s item)
   \<and> (\<not> has_entry (cartItems s) (product_id (item_product item)) \<longrightarrow>
       product_id (item_product item') = product_id (item_product item) \<longrightarrow>
        (\<exists>s2. andThen (addItem s item) (\<lambda>s1. addItem s1 item') = Inr s2 \<and>
              filter (\<lambda>c. product_id (item_product c) = product_id (item_product item))
                (cartItems s2) = [\<lparr>item_product = item_product item, quantity = 1\<rparr>]))"
proof -
  let ?i = "product_id (item_product item)"
  let ?new = "\<lparr>item_product = item_product item, quantity = 1\<rparr>"
  let ?s1 = "s\<lparr>cartItems := cartItems s @ [?new]\<rparr>"
  have absent: "addItem s item = Inr ?s1" if "\<not> has_entry (cartItems s) ?i"
    using that by (simp add: addItem_absent)
  have present: "addItem s item = Inr s" if "has_entry (cartItems s) ?i"
    using that by (rule addItem_present)
  have again: "addItem ?s1 item' = Inr ?s1" if "product_id (item_product item') = ?i"
    by (rule addItem_present) (simp add: that has_entry_append has_entry_iff)
  have twice: "andThen (addItem s item) (\<lambda>s1. addItem s1 item') = addItem s item"
    if eq: "product_id (item_product item') = ?i"
  proof (cases "has_entry (cartItems s) ?i")
    case True
    then have "addItem s item' = Inr s" using eq by (intro addItem_present) simp
    with True show ?thesis by (simp add: present andThen_def)
  next
    case False
    then show ?thesis by (simp add: absent again[OF eq] andThen_def)
  qed
  have one: "filter (\<lambda>c. product_id (item_product c) = ?i) (cartItems ?s1) = [?new]"
    if "\<not> has_entry (cartItems s) ?i"
    using that by (simp add: filter_absent)
  have both: "\<exists>s2. andThen (addItem s item) (\<lambda>s1. addItem s1 item') = Inr s2 \<and>
      filter (\<lambda>c. product_id (item_product c) = ?i) (cartItems s2) = [?new]"
    if "\<not> has_entry (cartItems s) ?i" and "product_id (item_product item') = ?i"
    using twice[OF that(2)] absent[OF that(1)] one[OF that(1)] by simp
  show ?thesis
    using absent present twice both by blast
qed

theorem addItem_appends_once_witness:
  "\<not> has_entry (cartItems empty_cart) (product_id apple) \<and>
   addItem empty_cart \<lparr>item_product = apple, quantity = 7\<rparr> =
     Inr \<lparr>cartItems = [\<lparr>item_product = apple, quantity = 1\<rparr>]\<rparr> \<and>
   andThen (addItem empty_cart \<lparr>item_product = apple, quantity = 7\<rparr>)
     (\<lambda>s1. addItem s1 \<lparr>item_product = green_apple, quantity = 2\<rparr>) =
     Inr \<lparr>cartItems = [\<lparr>item_product = apple, quantity = 1\<rparr>]\<rparr> \<and>
   has_entry (cartItems example_cart) (product_id apple) \<and>
   addItem example_cart \<lparr>item_product = apple, quantity = 7\<rparr> = Inr example_cart"
proof -
  let ?a = "\<lparr>item_product = apple, quantity = 7\<rparr>"
  let ?g = "\<lparr>item_product = green_apple, quantity = 2\<rparr>"
  have absent: "\<not> has_entry (cartItems empty_cart) (product_id (item_product ?a))"
    by (simp add: example_defs has_entry_def)
  have present: "has_entry (cartItems example_cart) (product_id (item_product ?a))"
    by (simp add: example_defs has_entry_def)
  have same: "product_id (item_product ?g) = product_id (item_product ?a)"
    by (simp add: example_defs)
  have new: "empty_cart\<lparr>cartItems := cartItems empty_cart @ [\<lparr>item_product = item_product ?a, quantity = 1\<rparr>]\<rparr>
      = \<lparr>cartItems = [\<lparr>item_product = apple, quantity = 1\<rparr>]\<rparr>"
    by (simp add: empty_cart_def)
  note fresh = addItem_appends_once[of empty_cart ?a ?g]
  note known = addItem_appends_once[of example_cart ?a ?g]
  from fresh absent have "addItem empty_cart ?a =
      Inr (empty_cart\<lparr>cartItems := cartItems empty_cart @ [\<lparr>item_product = item_product ?a, quantity = 1\<rparr>]\<rparr>)"
    by blast
  then have once: "addItem empty_cart ?a = Inr \<lparr>cartItems = [\<lparr>item_product = apple, quantity = 1\<rparr>]\<rparr>"
    by (simp only: new)
  from fresh same have "andThen (addItem empty_cart ?a) (\<lambda>s1. addItem s1 ?g) = addItem empty_cart ?a"
    by blast
  then have twice: "andThen (addItem empty_cart ?a) (\<lambda>s1. addItem s1 ?g) =
      Inr \<lparr>cartItems = [\<lparr>item_product = apple, quantity = 1\<rparr>]\<rparr>"
    by (simp only: once)
  from known present have kept: "addItem example_cart ?a = Inr example_cart"
    by blast
  have absent': "\<not> has_entry (cartItems empty_cart) (product_id apple)"
    using absent by simp
  have present': "has_entry (cartItems example_cart) (product_id apple)"
    using present by simp
  from absent' once twice present' kept show ?thesis by blast
qed

section \<open>Decrementing an entry of quantity 1\<close>

text \<open>
  Claim C3. On a cart that does not contain the product \<open>P\<close>, \<open>addItem\<close> for \<open>P\<close>
  followed by \<open>decrementQuantity\<close> for \<open>P\<close> returns a state in which \<open>isInCart\<close> is
  false for \<open>P\<close>: the entry of quantity 1 is removed by the one call that decrements it,
  and the cart is the one before the two calls.
\<close>

theorem add_then_decrement_removes:
  assumes "\<not> isInCart (cartItems s) P"
    and "product_id (item_product item) = product_id P"
    and "product_id (item_product item') = product_id P"
  shows "\<exists>s'. andThen (addItem s item) (\<lambda>s1. decrementQuantity s1 item') = Inr s' \<and>
              \<not> isInCart (cartItems s') P \<and> cartItems s' = cartItems s"
proof -
  let ?new = "item\<lparr>quantity := 1\<rparr>"
  let ?s1 = "s\<lparr>cartItems := cartItems s @ [?new]\<rparr>"
  from assms(1) have "\<not> has_entry (cartItems s) (product_id P)"
    by (simp add: isInCart_def some_iff has_entry_def)
  then have absent: "\<not> has_entry (cartItems s) (product_id (item_product ?new))"
    using assms(2) by simp
  then have add: "addItem s item = Inr ?s1"
    by (simp add: addItem_absent)
  have "decrementQuantity ?s1 item' =
      Inr (?s1\<lparr>cartItems := (if quantity ?new = 1 then cartItems s
                              else cartItems s @ [?new\<lparr>quantity := quantity ?new - 1\<rparr>])\<rparr>)"
    using absent by (rule decrementQuantity_last[rotated]) (simp_all add: assms)
  then have dec: "decrementQuantity ?s1 item' = Inr s" by simp
  show ?thesis using assms(1) by (simp add: add dec andThen_def)
qed

theorem add_then_decrement_removes_witness:
  "\<not> isInCart (cartItems example_cart) plum \<and>
   (\<exists>s'. andThen (addItem example_cart \<lparr>item_product = plum, quantity = 5\<rparr>)
            (\<lambda>s1. decrementQuantity s1 \<lparr>item_product = plum, quantity = 1\<rparr>) = Inr s' \<and>
         \<not> isInCart (cartItems s') plum \<and> cartItems s' = cartItems example_cart)"
proof -
  have h: "\<not> isInCart (cartItems example_cart) plum"
    by (simp add: example_defs plum_def isInCart_def)
  show ?thesis
    using h add_then_decrement_removes[OF h,
        of "\<lparr>item_product = plum, quantity = 5\<rparr>" "\<lparr>item_product = plum, quantity = 1\<rparr>"]
    by simp
qed

section \<open>Actions on an absent entry\<close>

text \<open>
  Claim C4. When no entry of the cart has the product id of the input, each of
  \<open>removeItem\<close>, \<open>incrementQuantity\<close> and \<open>decrementQuantity\<close> returns the state it
  was given, unchanged, and no error.
\<close>

theorem absent_entry_is_noop:
  assumes "\<not> has_entry (cartItems s) (product_id (item_product item))"
  shows "removeItem s item = Inr s \<and> incrementQuantity s item = Inr s \<and>
         decrementQuantity s item = Inr s"
  using assms
  by (simp add: removeItem_absent incrementQuantity_absent decrementQuantity_absent)

theorem absent_entry_is_noop_witness:
  "\<not> has_entry (cartItems example_cart) (product_id plum) \<and>
   removeItem example_cart \<lparr>item_product = plum, quantity = 2\<rparr> = Inr example_cart \<and>
   incrementQuantity example_cart \<lparr>item_product = plum, quantity = 2\<rparr> = Inr example_cart \<and>
   decrementQuantity example_cart \<lparr>item_product = plum, quantity = 2\<rparr> = Inr example_cart"
proof -
  have h: "\<not> has_entry (cartItems example_cart)
      (product_id (item_product \<lparr>item_product = plum, quantity = 2\<rparr>))"
    by (simp add: example_defs plum_def has_entry_def)
  show ?thesis
    using h absent_entry_is_noop[OF h] by simp
qed

section \<open>Increment followed by decrement\<close>

text \<open>
  Claim C5. On a cart without the product, after one \<open>addItem\<close> for it,
  \<open>incrementQuantity\<close> followed by \<open>decrementQuantity\<close> for the same product id returns
  exactly the state that \<open>addItem\<close> produced: the same entries in the same order with the
  same quantities.
\<close>

theorem increment_then_decrement_restores:
  assumes "\<not> has_entry (cartItems s) (product_id (item_product item))"
    and "product_id (item_product item1) = product_id (item_product item)"
    and "product_id (item_product item2) = product_id (item_product item)"
  shows "\<exists>s1. addItem s item = Inr s1 \<and>
           andThen (incrementQuantity s1 item1) (\<lambda>s2. decrementQuantity s2 item2) = Inr s1"
proof -
  let ?new = "item\<lparr>quantity := 1\<rparr>"
  let ?two = "item\<lparr>quantity := 2\<rparr>"
  let ?s1 = "s\<lparr>cartItems := cartItems s @ [?new]\<rparr>"
  let ?s2 = "s\<lparr>cartItems := cartItems s @ [?two]\<rparr>"
  have add: "addItem s item = Inr ?s1"
    using assms(1) by (simp add: addItem_absent)
  have "incrementQuantity ?s1 item1 =
      Inr (?s1\<lparr>cartItems := cartItems s @ [?new\<lparr>quantity := quantity ?new + 1\<rparr>]\<rparr>)"
    by (rule incrementQuantity_last) (simp_all add: assms)
  then have inc: "incrementQuantity ?s1 item1 = Inr ?s2" by simp
  have "decrementQuantity ?s2 item2 =
      Inr (?s2\<lparr>cartItems := (if quantity ?two = 1 then cartItems s
                              else cartItems s @ [?two\<lparr>quantity := quantity ?two - 1\<rparr>])\<rparr>)"
    by (rule decrementQuantity_last) (simp_all add: assms)
  then have dec: "decrementQuantity ?s2 item2 = Inr ?s1" by simp
  show ?thesis by (simp add: add inc dec andThen_def)
qed

theorem increment_then_decrement_restores_witness:
  "\<not> has_entry (cartItems example_cart) (product_id plum) \<and>
   (\<exists>s1. addItem example_cart \<lparr>item_product = plum, quantity = 4\<rparr> = Inr s1 \<and>
      andThen (incrementQuantity s1 \<lparr>item_product = plum, quantity = 1\<rparr>)
        (\<lambda>s2. decrementQuantity s2 \<lparr>item_product = plum, quantity = 2\<rparr>) = Inr s1)"
proof -
  have h: "\<not> has_entry (cartItems example_cart)
      (product_id (item_product \<lparr>item_product = plum, quantity = 4\<rparr>))"
    by (simp add: example_defs plum_def has_entry_def)
  show ?thesis
    using h increment_then_decrement_restores[OF h,
        of "\<lparr>item_product = plum, quantity = 1\<rparr>" "\<lparr>item_product = plum, quantity = 2\<rparr>"]
    by simp
qed

section \<open>Removing an item\<close>

lemma filter_distinct_split:
  assumes "distinct (map f (pre @ e # post))"
  shows "filter (\<lambda>c. f c \<noteq> f e) (pre @ e # post) = pre @ post"
proof -
  from assms have "f e \<notin> f ` set pre" "f e \<notin> f ` set post"
    by auto
  then have "\<forall>c\<in>set pre. f c \<noteq> f e" "\<forall>c\<in>set post. f c \<noteq> f e"
    by (metis imageI)+
  then show ?thesis by (simp add: filter_id_conv)
qed

text \<open>
  Claim C6, as amended. In a cart with at most one entry for each product id that has an
  entry with the product id of the input, \<open>removeItem\<close> deletes that entry, whatever its
  quantity: no entry with that id remains, and every other entry is kept in its place. In
  any cart that has such an entry, \<open>removeItem\<close> deletes the first one and keeps every
  other entry: the cart is \<open>pre @ e # post\<close> with \<open>e\<close> the first entry of that id, and
  the result is \<open>pre @ post\<close>.
\<close>

theorem removeItem_deletes_entry:
  assumes "has_entry (cartItems s) (product_id (item_product item))"
  shows "\<exists>pre e post.
           cartItems s = pre @ e # post \<and>
           product_id (item_product e) = product_id (item_product item) \<and>
           \<not> has_entry pre (product_id (item_product item)) \<and>
           removeItem s item = Inr (s\<lparr>cartItems := pre @ post\<rparr>) \<and>
           (distinct (map (\<lambda>c. product_id (item_product c)) (cartItems s)) \<longrightarrow>
              \<not> has_entry (pre @ post) (product_id (item_product item)) \<and>
              pre @ post =
                filter (\<lambda>c. product_id (item_product c) \<noteq> product_id (item_product item))
                  (cartItems s))"
proof -
  let ?i = "product_id (item_product item)"
  from assms obtain pre e post where split: "cartItems s = pre @ e # post"
    "product_id (item_product e) = ?i"
    "list_all (\<lambda>c. product_id (item_product c) \<noteq> ?i) pre"
    by (rule has_entry_split)
  have pre: "\<not> has_entry pre ?i"
    using split(3) by (auto simp: has_entry_iff list_all_iff)
  have rm: "removeItem s item = Inr (s\<lparr>cartItems := pre @ post\<rparr>)"
    by (rule removeItem_split[OF split(1) split(3) split(2)])
  have gone: "\<not> has_entry (pre @ post) ?i \<and>
      pre @ post = filter (\<lambda>c. product_id (item_product c) \<noteq> ?i) (cartItems s)"
    if d: "distinct (map (\<lambda>c. product_id (item_product c)) (cartItems s))"
  proof -
    from d have d': "distinct (map (\<lambda>c. product_id (item_product c)) (pre @ e # post))"
      by (simp only: split(1))
    have f: "filter (\<lambda>c. product_id (item_product c) \<noteq> ?i) (cartItems s) = pre @ post"
      using filter_distinct_split[OF d'] by (simp only: split(1) split(2))
    have "\<not> has_entry (filter (\<lambda>c. product_id (item_product c) \<noteq> ?i) (cartItems s)) ?i"
      by (simp add: has_entry_iff)
    with f show ?thesis by simp
  qed
  show ?thesis using split(1,2) pre rm gone by blast
qed

theorem removeItem_deletes_entry_witness:
  "has_entry (cartItems example_cart) (product_id green_apple) \<and>
   distinct (map (\<lambda>c. product_id (item_product c)) (cartItems example_cart)) \<and>
   removeItem example_cart \<lparr>item_product = green_apple, quantity = 1\<rparr> =
     Inr \<lparr>cartItems = [\<lparr>item_product = pear, quantity = 1\<rparr>]\<rparr> \<and>
   \<not> has_entry [\<lparr>item_product = pear, quantity = 1\<rparr>] (product_id green_apple)"
proof -
  let ?g = "\<lparr>item_product = green_apple, quantity = 1\<rparr>"
  have h: "has_entry (cartItems example_cart) (product_id (item_product ?g))"
    by (simp add: example_defs has_entry_def)
  have d: "distinct (map (\<lambda>c. product_id (item_product c)) (cartItems example_cart))"
    by (simp add: example_defs)
  have f: "filter (\<lambda>c. product_id (item_product c) \<noteq> product_id (item_product ?g))
      (cartItems example_cart) = [\<lparr>item_product = pear, quantity = 1\<rparr>]"
    by (simp add: example_defs)
  from removeItem_deletes_entry[OF h] d obtain pre post where
    "removeItem example_cart ?g = Inr (example_cart\<lparr>cartItems := pre @ post\<rparr>)"
    "\<not> has_entry (pre @ post) (product_id (item_product ?g))"
    "pre @ post = filter (\<lambda>c. product_id (item_product c) \<noteq> product_id (item_product ?g))
      (cartItems example_cart)"
    by blast
  with f have "removeItem example_cart ?g = Inr \<lparr>cartItems = [\<lparr>item_product = pear, quantity = 1\<rparr>]\<rparr>"
    "\<not> has_entry [\<lparr>item_product = pear, quantity = 1\<rparr>] (product_id (item_product ?g))"
    by (simp_all add: example_cart_def)
  with h d show ?thesis by simp
qed

text \<open>
  Without the condition on the ids an entry with the id can remain: in a cart with two
  entries for the product id 1, only the first of them is deleted.
\<close>

theorem removeItem_duplicate_id_counterexample:
  "has_entry (cartItems duplicate_cart) (product_id apple) \<and>
   removeItem duplicate_cart \<lparr>item_product = apple, quantity = 1\<rparr> =
     Inr \<lparr>cartItems = [\<lparr>item_product = pear, quantity = 1\<rparr>,
                       \<lparr>item_product = green_apple, quantity = 3\<rparr>]\<rparr> \<and>
   has_entry [\<lparr>item_product = pear, quantity = 1\<rparr>, \<lparr>item_product = green_apple, quantity = 3\<rparr>]
     (product_id apple)"
  by (simp add: duplicate_cart_def example_defs has_entry_def removeItem_def findItemIndex_def
      findIndex_def splice_at_def)

section \<open>Facts about the numbers\<close>

lemma rne_of_int: "rne (of_int k) = k"
  by (simp add: rne_def)

lemma ilog2_of_int: "1 \<le> n \<Longrightarrow> ilog2 (of_int n) = bitlen n - 1"
  by (simp add: ilog2_def)

text \<open>How a positive rational is rounded, once its leading exponent is known.\<close>

lemma round64_positive:
  assumes "0 < q" "ilog2 q = l" "max (l - 52) (- 1074) = e" "rne (q / pow2 e) = m"
    "m \<noteq> 0" "of_int m * pow2 e = v" "v < 2 ^ 1024"
  shows "round64 q = Num v"
proof -
  have pos: "q \<noteq> 0" "\<not> q < 0" "\<bar>q\<bar> = q" using assms(1) by simp_all
  have small: "\<not> 2 ^ 1024 \<le> v" using assms(7) by simp
  show ?thesis
    unfolding round64_def Let_def pos assms(2) assms(3) assms(4) assms(6)
    using assms(5) small pos by simp
qed

lemma round64_exact:
  assumes "0 < q" "ilog2 q - 52 = e" "- 1074 \<le> e" "q / pow2 e = of_int m" "q < 2 ^ 1024"
  shows "round64 q = Num q"
proof -
  have p: "pow2 e \<noteq> 0" by (simp add: pow2_def)
  have mx: "max (ilog2 q - 52) (- 1074) = e" using assms(2,3) by simp
  have r: "rne (q / pow2 e) = m" by (simp only: assms(4) rne_of_int)
  have v: "of_int m * pow2 e = q" using assms(4) p by (simp add: field_simps)
  have m0: "m \<noteq> 0" using v assms(1) by auto
  show ?thesis
    by (rule round64_positive[OF assms(1) refl mx r m0 v assms(5)])
qed

lemma round64_of_int:
  assumes "0 < n" "n \<le> 2 ^ 53"
  shows "round64 (of_int n) = Num (of_int n)"
proof -
  define e where "e = ilog2 (of_int n) - 52"
  from assms have n1: "1 \<le> n" by simp
  have L: "ilog2 (of_int n) = bitlen n - 1" using n1 by (rule ilog2_of_int)
  have L0: "0 \<le> bitlen n - 1" using assms(1) bitlen_ge_iff_power[of 1 n] by simp
  have "n < 2 ^ 54" using assms(2) by (rule order_le_less_trans) simp
  then have L53: "bitlen n - 1 \<le> 53" using bitlen_le_iff_power[of n 54] by simp
  have lo: "- 1074 \<le> e" using L0 by (simp add: e_def L)
  have big: "(of_int n :: rat) < 2 ^ 1024"
  proof -
    have "n < 2 ^ 1024" using assms(2) by (rule order_le_less_trans) simp
    then have "(of_int n :: rat) < of_int (2 ^ 1024)" by (simp only: of_int_less_iff)
    then show ?thesis by simp
  qed
  have pos: "0 < (of_int n :: rat)" using assms(1) by simp
  have "\<exists>m. (of_int n :: rat) / pow2 e = of_int m"
  proof (cases "e \<le> 0")
    case True
    then have "pow2 e = 1 / 2 ^ nat (- e)" by (auto simp: pow2_def)
    then have "(of_int n :: rat) / pow2 e = of_int (n * 2 ^ nat (- e))" by simp
    then show ?thesis ..
  next
    case False
    with L53 have e1: "e = 1" by (simp add: e_def L)
    then have "bitlen n = 54" by (simp add: e_def L)
    then have "2 ^ 53 \<le> n" using bitlen_ge_iff_power[of 54 n] by simp
    with assms(2) have n: "n = 2 ^ 53" by simp
    have "(of_int n :: rat) / pow2 e = of_int (2 ^ 52)" by (simp add: e1 n pow2_def)
    then show ?thesis ..
  qed
  then obtain m where m: "(of_int n :: rat) / pow2 e = of_int m" ..
  show ?thesis
    by (rule round64_exact[OF pos _ lo m big]) (simp add: e_def)
qed

lemma double_of_int_exact:
  assumes "0 \<le> n" "n \<le> 2 ^ 53"
  shows "double_of_int n = Num (of_int n)"
proof (cases "n = 0")
  case True
  then show ?thesis by (simp add: double_of_int_def round64_def)
next
  case False
  with assms have "0 < n" by simp
  then show ?thesis unfolding double_of_int_def using assms(2) by (rule round64_of_int)
qed

lemma dmul_exact:
  assumes "0 \<le> a" "0 \<le> b" "a * b \<le> 2 ^ 53"
  shows "dmul (Num (of_int a)) (Num (of_int b)) = Num (of_int (a * b))"
proof (cases "a = 0 \<or> b = 0")
  case True
  then show ?thesis using assms by (auto simp: dmul_def)
next
  case False
  with assms have "0 < a * b" by (simp add: zero_less_mult_iff)
  then have "round64 (of_int (a * b)) = Num (of_int (a * b))"
    using assms(3) by (rule round64_of_int)
  with False show ?thesis by (simp add: dmul_def)
qed

lemma dadd_exact:
  assumes "0 \<le> a" "0 \<le> b" "a + b \<le> 2 ^ 53"
  shows "dadd (Num (of_int a)) (Num (of_int b)) = Num (of_int (a + b))"
proof (cases "a + b = 0")
  case True
  with assms have "a = 0" "b = 0" by simp_all
  then show ?thesis by (simp add: dadd_def)
next
  case False
  with assms have "0 < a + b" by simp
  then have "round64 (of_int (a + b)) = Num (of_int (a + b))"
    using assms(3) by (rule round64_of_int)
  moreover have "(of_int a :: rat) + of_int b \<noteq> 0"
    using False by (simp only: of_int_add[symmetric] of_int_eq_0_iff) simp
  ultimately show ?thesis by (simp add: dadd_def)
qed

text \<open>\<open>2 ^ 53 + 1\<close> lies halfway between two doubles and goes to the even one.\<close>

lemma round64_tie: "round64 9007199254740993 = Num 9007199254740992"
proof -
  have b: "bitlen 9007199254740993 = 54"
    by (rule antisym) (simp_all add: bitlen_le_iff_power bitlen_ge_iff_power)
  have l: "ilog2 9007199254740993 = 53" by (simp add: ilog2_def b)
  have f: "\<lfloor>(9007199254740993 :: rat) / 2\<rfloor> = 4503599627370496"
    by (simp add: floor_eq_iff)
  have r: "rne (9007199254740993 / pow2 1) = 4503599627370496"
    by (simp add: rne_def Let_def f pow2_def)
  show ?thesis
    by (rule round64_positive[OF _ l _ r]) (simp_all add: pow2_def)
qed

text \<open>Three times the double \<^verbatim>\<open>0.1\<close> lies halfway between two doubles as well.\<close>

lemma round64_three_tenths:
  "round64 (10808639105689191 / 36028797018963968) = Num (1351079888211149 / 4503599627370496)"
proof -
  have c: "\<lceil>(36028797018963968 :: rat) / 10808639105689191\<rceil> = 4"
    by (simp add: ceiling_eq_iff)
  have b: "bitlen 3 = 2"
    by (rule antisym) (simp_all add: bitlen_le_iff_power bitlen_ge_iff_power)
  have l: "ilog2 (10808639105689191 / 36028797018963968) = - 2"
    by (simp add: ilog2_def c b)
  have p: "pow2 (- 54) = 1 / 18014398509481984" by (simp add: pow2_def)
  have f: "\<lfloor>(10808639105689191 :: rat) / 2\<rfloor> = 5404319552844595"
    by (simp add: floor_eq_iff)
  have r: "rne (10808639105689191 / 36028797018963968 / pow2 (- 54)) = 5404319552844596"
    by (simp add: rne_def Let_def p f)
  show ?thesis
    by (rule round64_positive[OF _ l _ r]) (simp_all add: p)
qed

lemma round64_rounded_three_tenths:
  "round64 (1351079888211149 / 4503599627370496) = Num (1351079888211149 / 4503599627370496)"
proof -
  have c: "\<lceil>(4503599627370496 :: rat) / 1351079888211149\<rceil> = 4"
    by (simp add: ceiling_eq_iff)
  have b: "bitlen 3 = 2"
    by (rule antisym) (simp_all add: bitlen_le_iff_power bitlen_ge_iff_power)
  have l: "ilog2 (1351079888211149 / 4503599627370496) = - 2"
    by (simp add: ilog2_def c b)
  have p: "pow2 (- 54) = 1 / 18014398509481984" by (simp add: pow2_def)
  have d: "(1351079888211149 / 4503599627370496 :: rat) / pow2 (- 54) = of_int 5404319552844596"
    by (simp add: p)
  show ?thesis
    by (rule round64_exact[OF _ _ _ d]) (simp_all add: l)
qed

lemma round64_tenth:
  "round64 (1 / 10) = Num (3602879701896397 / 36028797018963968)"
proof -
  have b: "bitlen 9 = 4"
    by (rule antisym) (simp_all add: bitlen_le_iff_power bitlen_ge_iff_power)
  have l: "ilog2 (1 / 10) = - 4" by (simp add: ilog2_def b)
  have p: "pow2 (- 56) = 1 / 72057594037927936" by (simp add: pow2_def)
  have f: "\<lfloor>(36028797018963968 :: rat) / 5\<rfloor> = 7205759403792793"
    by (simp add: floor_eq_iff)
  have r: "rne (1 / 10 / pow2 (- 56)) = 7205759403792794"
    by (simp add: rne_def Let_def p f)
  show ?thesis
    by (rule round64_positive[OF _ l _ r]) (simp_all add: p)
qed

section \<open>The total price\<close>

lemma whole_price_cases:
  assumes "whole_price p"
  obtains k where "0 \<le> k" "p = Num (of_int k)"
proof (cases p)
  case (Num q)
  with assms have "0 \<le> \<lfloor>q\<rfloor>" "p = Num (of_int \<lfloor>q\<rfloor>)"
    by (simp_all del: of_int_floor_cancel)
  then show thesis by (rule that)
qed (use assms in simp_all)

lemma exact_total_nonneg: "whole_cart items \<Longrightarrow> 0 \<le> exact_total items"
proof (induction items)
  case Nil
  then show ?case by (simp add: exact_total_def)
next
  case (Cons c items)
  then have w: "whole_price (price (item_product c))" and q: "1 \<le> quantity c"
    and rest: "whole_cart items"
    by (simp_all add: whole_cart_def)
  from w obtain k where k: "0 \<le> k" "price (item_product c) = Num (of_int k)"
    by (rule whole_price_cases)
  have "0 \<le> (of_int k :: rat) * of_int (quantity c)"
    using k(1) q by simp
  moreover have "0 \<le> exact_total items" using rest by (rule Cons.IH)
  ultimately show ?case by (simp add: exact_total_def k(2))
qed

lemma reduce_whole_cart:
  assumes "whole_cart items" "0 \<le> a" "of_int a + exact_total items \<le> 2 ^ 53"
  shows "reduce (\<lambda>total cartItem.
            dadd total (dmul (price (item_product cartItem)) (double_of_int (quantity cartItem))))
          (Num (of_int a)) items = Num (of_int a + exact_total items)"
  using assms
proof (induction items arbitrary: a)
  case Nil
  then show ?case by (simp add: exact_total_def)
next
  case (Cons c items)
  from Cons.prems(1) have w: "whole_price (price (item_product c))"
    and q: "1 \<le> quantity c" "quantity c \<le> 2 ^ 53" and rest: "whole_cart items"
    by (simp_all add: whole_cart_def)
  from w obtain k where k: "0 \<le> k" "price (item_product c) = Num (of_int k)"
    by (rule whole_price_cases)
  let ?b = "k * quantity c"
  have split: "exact_total (c # items) = of_int ?b + exact_total items"
    by (simp add: exact_total_def k(2))
  have rest0: "0 \<le> exact_total items" using rest by (rule exact_total_nonneg)
  have b0: "0 \<le> ?b" using k(1) q(1) by simp
  from Cons.prems(3) rest0 have "(of_int (a + ?b) :: rat) \<le> of_int (2 ^ 53)"
    by (simp add: split)
  then have ab: "a + ?b \<le> 2 ^ 53" by (simp only: of_int_le_iff)
  with Cons.prems(2) have b: "?b \<le> 2 ^ 53" by simp
  have dq: "double_of_int (quantity c) = Num (of_int (quantity c))"
    using q by (intro double_of_int_exact) simp_all
  have mul: "dmul (price (item_product c)) (double_of_int (quantity c)) = Num (of_int ?b)"
    unfolding k(2) dq using k(1) q(1) b by (intro dmul_exact) simp_all
  have add: "dadd (Num (of_int a)) (Num (of_int ?b)) = Num (of_int (a + ?b))"
    using Cons.prems(2) b0 ab by (rule dadd_exact)
  let ?f = "\<lambda>total cartItem.
      dadd total (dmul (price (item_product cartItem)) (double_of_int (quantity cartItem)))"
  have "reduce ?f (Num (of_int a)) (c # items) = reduce ?f (Num (of_int (a + ?b))) items"
    by (simp only: reduce.simps mul add)
  also have "\<dots> = Num (of_int (a + ?b) + exact_total items)"
  proof (rule Cons.IH[OF rest])
    show "0 \<le> a + ?b" using Cons.prems(2) b0 by simp
    show "of_int (a + ?b) + exact_total items \<le> 2 ^ 53"
      using Cons.prems(3) by (simp add: split)
  qed
  also have "of_int (a + ?b) + exact_total items = of_int a + exact_total (c # items)"
    by (simp add: split)
  finally show ?case .
qed

lemma getTotalPrice_whole_cart:
  assumes "whole_cart items" "exact_total items \<le> 2 ^ 53"
  shows "getTotalPrice items = Num (exact_total items)"
  using reduce_whole_cart[OF assms(1), of 0] assms(2) by (simp add: getTotalPrice_def)

text \<open>
  Claim C7, as amended. \<open>getTotalPrice\<close> returns the sum over all entries of price times
  quantity as the host computes it: the products are added from the left, starting from 0,
  and every product and every partial sum is rounded to the nearest double. For a cart of
  whole prices (non-negative integer prices, integer quantities from 1 to \<open>2 ^ 53\<close>)
  whose exact sum is at most \<open>2 ^ 53\<close> this is the exact sum. It is a total function (no
  step of it can throw), it returns 0 on the empty cart, and 25 on the cart of two entries
  with price 10 and quantity 2, and price 5 and quantity 1.
\<close>

theorem getTotalPrice_rounded_sum:
  "getTotalPrice items =
     foldl dadd (Num 0)
       (map (\<lambda>c. dmul (price (item_product c)) (double_of_int (quantity c))) items)
   \<and> getTotalPrice ([] :: 'id CartItem list) = Num 0
   \<and> (price p = Num 10 \<longrightarrow> price q = Num 5 \<longrightarrow>
        getTotalPrice [\<lparr>item_product = p, quantity = 2\<rparr>, \<lparr>item_product = q, quantity = 1\<rparr>] =
          Num 25)
   \<and> (whole_cart items \<longrightarrow> exact_total items \<le> 2 ^ 53 \<longrightarrow>
        getTotalPrice items = Num (exact_total items))"
proof -
  have fold: "getTotalPrice items =
     foldl dadd (Num 0)
       (map (\<lambda>c. dmul (price (item_product c)) (double_of_int (quantity c))) items)"
    by (simp add: getTotalPrice_def reduce_foldl foldl_map)
  have empty: "getTotalPrice ([] :: 'id CartItem list) = Num 0"
    by (simp add: getTotalPrice_def)
  have example: "getTotalPrice
      [\<lparr>item_product = p, quantity = 2\<rparr>, \<lparr>item_product = q, quantity = 1\<rparr>] = Num 25"
    if "price p = Num 10" "price q = Num 5"
  proof -
    let ?cart = "[\<lparr>item_product = p, quantity = 2\<rparr>, \<lparr>item_product = q, quantity = 1\<rparr>]"
    have w: "whole_cart ?cart" by (simp add: whole_cart_def that)
    have t: "exact_total ?cart = 25" by (simp add: exact_total_def that)
    show ?thesis using getTotalPrice_whole_cart[OF w] by (simp add: t)
  qed
  show ?thesis
    using fold empty example getTotalPrice_whole_cart by blast
qed

theorem getTotalPrice_rounded_sum_witness:
  "price apple = Num 10 \<and> price pear = Num 5 \<and>
   getTotalPrice [\<lparr>item_product = apple, quantity = 2\<rparr>, \<lparr>item_product = pear, quantity = 1\<rparr>] =
     Num 25 \<and>
   whole_cart (cartItems example_cart) \<and> exact_total (cartItems example_cart) = 35 \<and>
   getTotalPrice (cartItems example_cart) = Num 35"
proof -
  have a: "price apple = Num 10" and p: "price pear = Num 5"
    by (simp_all add: example_defs)
  have w: "whole_cart (cartItems example_cart)"
    by (simp add: example_defs whole_cart_def)
  have t: "exact_total (cartItems example_cart) = 35"
    by (simp add: example_defs exact_total_def)
  then have le: "exact_total (cartItems example_cart) \<le> 2 ^ 53" by simp
  note inst = getTotalPrice_rounded_sum[of "cartItems example_cart" apple pear]
  from inst a p have two: "getTotalPrice
      [\<lparr>item_product = apple, quantity = 2\<rparr>, \<lparr>item_product = pear, quantity = 1\<rparr>] = Num 25"
    by blast
  from inst w le have "getTotalPrice (cartItems example_cart) =
      Num (exact_total (cartItems example_cart))"
    by blast
  then have all: "getTotalPrice (cartItems example_cart) = Num 35" by (simp only: t)
  from a p two w t all show ?thesis by blast
qed

text \<open>
  The total is not the exact sum on every well-formed cart. A price of \<open>2 ^ 53\<close> and a
  price of 1, each with quantity 1, have the exact sum \<open>2 ^ 53 + 1\<close>, and the total is
  \<open>2 ^ 53\<close>. Three pieces at the price \<^verbatim>\<open>0.1\<close> have a total of
  \<^verbatim>\<open>0.30000000000000004\<close>, which is not three times the price. All prices here are
  doubles (rounding leaves them unchanged).
\<close>

theorem getTotalPrice_exact_sum_counterexample:
  "round64 9007199254740992 = price bond \<and> round64 1 = price penny \<and>
   getTotalPrice bond_cart = Num 9007199254740992 \<and>
   exact_total bond_cart = 9007199254740993 \<and>
   getTotalPrice bond_cart \<noteq> Num (exact_total bond_cart) \<and>
   round64 (1 / 10) = price sweet \<and>
   getTotalPrice sweet_cart = Num (1351079888211149 / 4503599627370496) \<and>
   exact_total sweet_cart = 10808639105689191 / 36028797018963968 \<and>
   getTotalPrice sweet_cart \<noteq> Num (exact_total sweet_cart)"
proof -
  have one: "double_of_int 1 = Num 1" using double_of_int_exact[of 1] by simp
  have three: "double_of_int 3 = Num 3" using double_of_int_exact[of 3] by simp
  have r1: "round64 1 = Num 1" using round64_of_int[of 1] by simp
  have rb: "round64 9007199254740992 = Num 9007199254740992"
    using round64_of_int[of 9007199254740992] by simp
  have gb: "getTotalPrice bond_cart = Num 9007199254740992"
    by (simp add: getTotalPrice_def bond_cart_def bond_def penny_def one dmul_def dadd_def
        rb r1 round64_tie)
  have eb: "exact_total bond_cart = 9007199254740993"
    by (simp add: exact_total_def bond_cart_def bond_def penny_def)
  have gs: "getTotalPrice sweet_cart = Num (1351079888211149 / 4503599627370496)"
    by (simp add: getTotalPrice_def sweet_cart_def sweet_def three dmul_def dadd_def
        round64_three_tenths round64_rounded_three_tenths)
  have es: "exact_total sweet_cart = 10808639105689191 / 36028797018963968"
    by (simp add: exact_total_def sweet_cart_def sweet_def)
  have pb: "round64 9007199254740992 = price bond" by (simp add: bond_def rb)
  have pp: "round64 1 = price penny" by (simp add: penny_def r1)
  have ps: "round64 (1 / 10) = price sweet" by (simp add: sweet_def round64_tenth)
  have nb: "getTotalPrice bond_cart \<noteq> Num (exact_total bond_cart)" by (simp add: gb eb)
  have ns: "getTotalPrice sweet_cart \<noteq> Num (exact_total sweet_cart)" by (simp add: gs es)
  from pb pp gb eb nb ps gs es ns show ?thesis by blast
qed

section \<open>Membership in the cart\<close>

text \<open>
  Claim C8. \<open>isInCart\<close> is true exactly when some entry of the cart has the product id
  of the given product. It is false on the empty cart for every product, and true for
  \<open>P\<close> in the state that \<open>addItem\<close> returns for the input with product \<open>P\<close> and
  quantity 1, on any cart.
\<close>

theorem isInCart_iff_entry:
  "(isInCart items P \<longleftrightarrow> (\<exists>c\<in>set items. product_id (item_product c) = product_id P))
   \<and> \<not> isInCart [] P
   \<and> (\<exists>s'. addItem s \<lparr>item_product = P, quantity = 1\<rparr> = Inr s' \<and> isInCart (cartItems s') P)"
proof -
  have iff: "isInCart xs P \<longleftrightarrow> has_entry xs (product_id P)" for xs
    by (simp add: isInCart_def some_iff has_entry_def)
  have "\<exists>s'. addItem s \<lparr>item_product = P, quantity = 1\<rparr> = Inr s' \<and> isInCart (cartItems s') P"
  proof (cases "has_entry (cartItems s) (product_id P)")
    case True
    then have "addItem s \<lparr>item_product = P, quantity = 1\<rparr> = Inr s"
      by (intro addItem_present) simp
    with True show ?thesis by (simp add: iff)
  next
    case False
    then show ?thesis by (simp add: addItem_absent iff has_entry_append has_entry_iff)
  qed
  then show ?thesis by (simp add: iff has_entry_iff)
qed

theorem isInCart_iff_entry_witness:
  "isInCart (cartItems example_cart) green_apple \<and>
   \<not> isInCart [] green_apple \<and>
   (\<exists>s'. addItem empty_cart \<lparr>item_product = green_apple, quantity = 1\<rparr> = Inr s' \<and>
         isInCart (cartItems s') green_apple)"
proof -
  have "\<exists>c\<in>set (cartItems example_cart). product_id (item_product c) = product_id green_apple"
    by (simp add: example_defs)
  then show ?thesis
    using isInCart_iff_entry[of "cartItems example_cart" green_apple empty_cart]
    by simp
qed

section \<open>Only the product id of the input matters\<close>

lemma findItemIndex_cong:
  "product_id (item_product a) = product_id (item_product b) \<Longrightarrow>
   findItemIndex items a = findItemIndex items b"
  by (simp add: findItemIndex_def)

text \<open>
  Claim C10. For two inputs with the same product id, \<open>removeItem\<close>,
  \<open>incrementQuantity\<close> and \<open>decrementQuantity\<close> return the same result on every cart:
  the quantity and the other product fields of the input play no part. \<open>addItem\<close>
  returns the same result whatever the quantity of its input, and for the two inputs it
  either leaves the state unchanged for both, or appends for each its own product with
  quantity 1: whether it appends depends on the product id alone.
\<close>

theorem actions_depend_on_id_only:
  assumes "product_id (item_product a) = product_id (item_product b)"
  shows "removeItem s a = removeItem s b
       \<and> incrementQuantity s a = incrementQuantity s b
       \<and> decrementQuantity s a = decrementQuantity s b
       \<and> addItem s (a\<lparr>quantity := q\<rparr>) = addItem s a
       \<and> (addItem s a = Inr s \<and> addItem s b = Inr s
          \<or> addItem s a =
               Inr (s\<lparr>cartItems := cartItems s @ [\<lparr>item_product = item_product a, quantity = 1\<rparr>]\<rparr>)
            \<and> addItem s b =
               Inr (s\<lparr>cartItems := cartItems s @ [\<lparr>item_product = item_product b, quantity = 1\<rparr>]\<rparr>))"
proof -
  note ix = findItemIndex_cong[OF assms, of "cartItems s"]
  have r: "removeItem s a = removeItem s b" by (simp add: removeItem_def ix)
  have i: "incrementQuantity s a = incrementQuantity s b" by (simp add: incrementQuantity_def ix)
  have d: "decrementQuantity s a = decrementQuantity s b" by (simp add: decrementQuantity_def ix)
  have q: "addItem s (a\<lparr>quantity := q\<rparr>) = addItem s a"
    by (simp add: addItem_def findItemIndex_def Let_def)
  have m: "addItem s a = Inr s \<and> addItem s b = Inr s
          \<or> addItem s a =
               Inr (s\<lparr>cartItems := cartItems s @ [\<lparr>item_product = item_product a, quantity = 1\<rparr>]\<rparr>)
            \<and> addItem s b =
               Inr (s\<lparr>cartItems := cartItems s @ [\<lparr>item_product = item_product b, quantity = 1\<rparr>]\<rparr>)"
    by (simp add: addItem_def ix Let_def)
  from r i d q m show ?thesis by blast
qed

theorem actions_depend_on_id_only_witness:
  "product_id (item_product \<lparr>item_product = apple, quantity = 7\<rparr>) =
     product_id (item_product \<lparr>item_product = green_apple, quantity = 2\<rparr>) \<and>
   removeItem example_cart \<lparr>item_product = apple, quantity = 7\<rparr> =
     removeItem example_cart \<lparr>item_product = green_apple, quantity = 2\<rparr> \<and>
   incrementQuantity example_cart \<lparr>item_product = apple, quantity = 7\<rparr> =
     incrementQuantity example_cart \<lparr>item_product = green_apple, quantity = 2\<rparr> \<and>
   decrementQuantity example_cart \<lparr>item_product = apple, quantity = 7\<rparr> =
     decrementQuantity example_cart \<lparr>item_product = green_apple, quantity = 2\<rparr> \<and>
   addItem example_cart \<lparr>item_product = apple, quantity = 9\<rparr> =
     addItem example_cart \<lparr>item_product = apple, quantity = 7\<rparr>"
proof -
  have h: "product_id (item_product \<lparr>item_product = apple, quantity = 7\<rparr>) =
     product_id (item_product \<lparr>item_product = green_apple, quantity = 2\<rparr>)"
    by (simp add: example_defs)
  show ?thesis
    using h actions_depend_on_id_only[OF h, of example_cart 9]
    by simp
qed

end
